theory Spec2Isabelle
  imports Complex_Main "HOL-Library.Word"
begin

section \<open>ResponsiveAnalogRead: the filter and the range mapper\<close>

text \<open>
  A shallow embedding of \<^verbatim>\<open>src/ResponsiveAnalogRead.cpp\<close>.

  Conventions of the embedding.
  \<^item> The C++ object is the record \<open>rar\<close>; every member function takes the object and
    returns the updated object (and its return value, when it has one).
  \<^item> \<^verbatim>\<open>float\<close> members and locals are idealised as \<open>real\<close>: rounding of the
    floating-point operations is not modelled. Conversions between \<^verbatim>\<open>float\<close> and
    \<^verbatim>\<open>int\<close> are explicit (\<open>real_of_int\<close> one way, \<open>float_to_int\<close>, which
    truncates toward zero, the other way).
  \<^item> \<^verbatim>\<open>int\<close> is \<open>int\<close>, without overflow (signed overflow is undefined in C++).
    \<^verbatim>\<open>uint8_t\<close> is \<open>8 word\<close>, so that \<^verbatim>\<open>pos++\<close> wraps as in the code.
  \<^item> The embedding therefore agrees with the code where no \<^verbatim>\<open>int\<close> operation leaves
    the 32 bits of an \<^verbatim>\<open>int\<close>, and its integer results agree where the conversions
    between \<^verbatim>\<open>int\<close> and \<^verbatim>\<open>float\<close> and the float operations behind them are exact
    (a binary32 float holds every integer up to \<open>2^24\<close>). A theorem whose statement
    depends on an integer computed that way carries the range as a hypothesis:
    \<open>valid_config\<close>, \<open>edgeSnap_exact\<close>, \<open>interpolation_fits\<close>.
  \<^item> The arrays behind the pointers \<^verbatim>\<open>_in\<close> and \<^verbatim>\<open>_out\<close> are lists; a read
    outside the table is the error \<open>OutOfBounds\<close> instead of undefined behaviour.
  \<^item> The header \<^verbatim>\<open>ResponsiveAnalogRead.h\<close> is not part of the sources at hand: the
    members' types are taken from their uses in the \<^verbatim>\<open>.cpp\<close> file and from the
    data model of the specification. The serial diagnostics (\<^verbatim>\<open>_debug\<close>) have no
    effect on the state and are left out, as are the pin and the reading of the
    hardware. The linear mode of \<^verbatim>\<open>doMapping\<close> calls the Arduino core's
    \<^verbatim>\<open>map\<close>, which is not code of this library; only the table mode is embedded.
  \<^item> Members whose C++ name starts with an underscore carry the prefix \<open>u_\<close>.
\<close>

subsection \<open>Data\<close>

record rar =
  sleepEnable :: bool
  edgeSnapEnable :: bool
  activityThreshold :: real
  analogResolution :: int
  snapMultiplier :: real
  smoothValue :: real
  errorEMA :: real
  sleeping :: bool
  rawValue :: int
  responsiveValue :: int
  prevResponsiveValue :: int
  responsiveValueHasChanged :: bool
  u_in :: "int list"
  u_out :: "int list"
  u_mapSize :: "8 word"
  u_map :: bool

datatype error = ConfigurationError | OutOfBounds | DivisionByZero

subsection \<open>Conversions and integer division of C++\<close>

text \<open>The cast \<^verbatim>\<open>(int)x\<close> of a float, and the implicit conversion on assigning a float
  to an \<^verbatim>\<open>int\<close>: the fractional part is discarded.\<close>

definition float_to_int :: "real \<Rightarrow> int" where
  "float_to_int x = (if x < 0 then \<lceil>x\<rceil> else \<lfloor>x\<rfloor>)"

text \<open>The conversion of a non-negative float to \<^verbatim>\<open>unsigned int\<close>.\<close>

definition float_to_uint :: "real \<Rightarrow> nat" where
  "float_to_uint x = nat \<lfloor>x\<rfloor>"

text \<open>\<^verbatim>\<open>a / b\<close> on \<^verbatim>\<open>int\<close>: the quotient is truncated toward zero.\<close>

definition tdiv :: "int \<Rightarrow> int \<Rightarrow> int" where
  "tdiv a b = (if (a < 0) = (b < 0) then \<bar>a\<bar> div \<bar>b\<bar> else - (\<bar>a\<bar> div \<bar>b\<bar>))"

subsection \<open>The filter\<close>

text \<open>\<^verbatim>\<open>snapCurve\<close>, lines 128 to 136.\<close>

definition snapCurve :: "real \<Rightarrow> real" where
  "snapCurve x =
     (let y = 1 / (x + 1);
          y = (1 - y) * 2
      in if y > 1 then 1 else y)"

text \<open>\<^verbatim>\<open>setSnapMultiplier\<close>, lines 138 to 147.\<close>

definition setSnapMultiplier :: "rar \<Rightarrow> real \<Rightarrow> rar" where
  "setSnapMultiplier s newMultiplier =
     (let m1 = (if newMultiplier > 1 then 1 else newMultiplier);
          m2 = (if m1 < 0 then 0 else m1)
      in s\<lparr>snapMultiplier := m2\<rparr>)"

text \<open>The first block of \<^verbatim>\<open>getResponsiveValue\<close>, lines 67 to 73: the value that the
  \<^verbatim>\<open>int\<close> parameter \<^verbatim>\<open>newValue\<close> holds after it. The right-hand sides are float
  expressions (\<^verbatim>\<open>activityThreshold\<close> is a float) assigned to an \<^verbatim>\<open>int\<close>.\<close>

definition edgeSnap :: "rar \<Rightarrow> int \<Rightarrow> int" where
  "edgeSnap s newValue =
     (if sleepEnable s \<and> edgeSnapEnable s then
        (if real_of_int newValue < activityThreshold s then
           float_to_int (real_of_int (newValue * 2) - activityThreshold s)
         else if real_of_int newValue > real_of_int (analogResolution s) - activityThreshold s then
           float_to_int (real_of_int (newValue * 2 - analogResolution s) + activityThreshold s)
         else newValue)
      else newValue)"

text \<open>\<^verbatim>\<open>getResponsiveValue\<close>, lines 62 to 126: the returned \<^verbatim>\<open>int\<close> and the object.
  \<^verbatim>\<open>abs\<close> is the Arduino macro, which takes the magnitude of a float as a float; the
  magnitude of the difference is then converted to \<^verbatim>\<open>unsigned int\<close>.\<close>

definition getResponsiveValue :: "rar \<Rightarrow> int \<Rightarrow> int \<times> rar" where
  "getResponsiveValue s newValue0 =
     (let newValue = edgeSnap s newValue0;
          diff = float_to_uint \<bar>real_of_int newValue - smoothValue s\<bar>;
          s1 = s\<lparr>errorEMA :=
                  errorEMA s + ((real_of_int newValue - smoothValue s) - errorEMA s) * 0.4\<rparr>;
          s2 = (if sleepEnable s1
                then s1\<lparr>sleeping := (\<bar>errorEMA s1\<bar> < activityThreshold s1)\<rparr>
                else s1)
      in if sleepEnable s2 \<and> sleeping s2 then (float_to_int (smoothValue s2), s2)
         else
           (let snap = snapCurve (real diff * snapMultiplier s2);
                snap = (if sleepEnable s2 then snap * (0.5 + 0.5) else snap);
                s3 = s2\<lparr>smoothValue :=
                        smoothValue s2 + (real_of_int newValue - smoothValue s2) * snap\<rparr>;
                s4 = (if smoothValue s3 < 0.0 then s3\<lparr>smoothValue := 0.0\<rparr>
                      else if smoothValue s3 > real_of_int (analogResolution s3 - 1)
                      then s3\<lparr>smoothValue := real_of_int (analogResolution s3 - 1)\<rparr>
                      else s3)
            in (float_to_int (smoothValue s4), s4)))"

text \<open>\<^verbatim>\<open>update(int rawValueRead)\<close>, lines 51 to 60.\<close>

definition update :: "rar \<Rightarrow> int \<Rightarrow> rar" where
  "update s rawValueRead =
     (let s1 = s\<lparr>rawValue := rawValueRead\<rparr>;
          s2 = s1\<lparr>prevResponsiveValue := responsiveValue s1\<rparr>;
          (r, s3) = getResponsiveValue s2 (rawValue s2);
          s4 = s3\<lparr>responsiveValue := r\<rparr>
      in s4\<lparr>responsiveValueHasChanged := (responsiveValue s4 \<noteq> prevResponsiveValue s4)\<rparr>)"

text \<open>The filter with the statement \<^verbatim>\<open>snap *= 0.5 + 0.5\<close> of line 111 removed, and
  nothing else changed: the reading of the specification that treats the statement as absent.
  It is compared with the code's function below.\<close>

definition getResponsiveValue_without_flat :: "rar \<Rightarrow> int \<Rightarrow> int \<times> rar" where
  "getResponsiveValue_without_flat s newValue0 =
     (let newValue = edgeSnap s newValue0;
          diff = float_to_uint \<bar>real_of_int newValue - smoothValue s\<bar>;
          s1 = s\<lparr>errorEMA :=
                  errorEMA s + ((real_of_int newValue - smoothValue s) - errorEMA s) * 0.4\<rparr>;
          s2 = (if sleepEnable s1
                then s1\<lparr>sleeping := (\<bar>errorEMA s1\<bar> < activityThreshold s1)\<rparr>
                else s1)
      in if sleepEnable s2 \<and> sleeping s2 then (float_to_int (smoothValue s2), s2)
         else
           (let snap = snapCurve (real diff * snapMultiplier s2);
                s3 = s2\<lparr>smoothValue :=
                        smoothValue s2 + (real_of_int newValue - smoothValue s2) * snap\<rparr>;
                s4 = (if smoothValue s3 < 0.0 then s3\<lparr>smoothValue := 0.0\<rparr>
                      else if smoothValue s3 > real_of_int (analogResolution s3 - 1)
                      then s3\<lparr>smoothValue := real_of_int (analogResolution s3 - 1)\<rparr>
                      else s3)
            in (float_to_int (smoothValue s4), s4)))"

definition update_without_flat :: "rar \<Rightarrow> int \<Rightarrow> rar" where
  "update_without_flat s rawValueRead =
     (let s1 = s\<lparr>rawValue := rawValueRead\<rparr>;
          s2 = s1\<lparr>prevResponsiveValue := responsiveValue s1\<rparr>;
          (r, s3) = getResponsiveValue_without_flat s2 (rawValue s2);
          s4 = s3\<lparr>responsiveValue := r\<rparr>
      in s4\<lparr>responsiveValueHasChanged := (responsiveValue s4 \<noteq> prevResponsiveValue s4)\<rparr>)"

text \<open>A sequence of calls of \<^verbatim>\<open>update\<close>: the object after each call, in order.\<close>

fun run :: "rar \<Rightarrow> int list \<Rightarrow> rar list" where
  "run s [] = []"
| "run s (v # vs) = update s v # run (update s v) vs"

fun run_without_flat :: "rar \<Rightarrow> int list \<Rightarrow> rar list" where
  "run_without_flat s [] = []"
| "run_without_flat s (v # vs) =
     update_without_flat s v # run_without_flat (update_without_flat s v) vs"

text \<open>A configuration is valid when the resolution is positive and at most \<open>2^24\<close>, so
  that the bound \<^verbatim>\<open>analogResolution - 1\<close> of the clamp is converted to \<^verbatim>\<open>float\<close>
  exactly, and the snap multiplier is in the range that \<^verbatim>\<open>setSnapMultiplier\<close> clamps
  to.\<close>

definition valid_config :: "rar \<Rightarrow> bool" where
  "valid_config s \<longleftrightarrow>
     1 \<le> analogResolution s \<and> analogResolution s \<le> 16777216 \<and>
     0 \<le> snapMultiplier s \<and> snapMultiplier s \<le> 1"

text \<open>The samples and configurations on which the edge snap of the code is exact: the
  threshold is a multiple of \<open>1/16\<close> of magnitude at most \<open>2^16\<close>, and the sample and
  the resolution are at most \<open>2^18\<close> in magnitude. Then \<^verbatim>\<open>newValue * 2\<close> and
  \<^verbatim>\<open>newValue * 2 - analogResolution\<close> do not overflow, and every float in lines 68 to
  71 is a multiple of \<open>1/16\<close> below \<open>2^20\<close>, which binary32 holds exactly.\<close>

definition edgeSnap_exact :: "rar \<Rightarrow> int \<Rightarrow> bool" where
  "edgeSnap_exact s v \<longleftrightarrow>
     activityThreshold s * 16 = real_of_int \<lfloor>activityThreshold s * 16\<rfloor> \<and>
     \<bar>activityThreshold s\<bar> \<le> 65536 \<and> \<bar>v\<bar> \<le> 262144 \<and>
     0 \<le> analogResolution s \<and> analogResolution s \<le> 262144"

text \<open>Modelled from the spec: the object as constructed. The header with the members'
  initial values is missing; the values are the defaults of the specification
  (\<open>activityThreshold = 4.0\<close>, \<open>resolutionMax = 1024\<close>, \<open>smoothValue = 0\<close>,
  \<open>errorEMA = 0\<close>), with sleep and edge snap enabled and no table installed. It serves
  as a concrete input.\<close>

definition rar0 :: rar where
  "rar0 = \<lparr>sleepEnable = True, edgeSnapEnable = True, activityThreshold = 4,
     analogResolution = 1024, snapMultiplier = 0.01, smoothValue = 0, errorEMA = 0,
     sleeping = False, rawValue = 0, responsiveValue = 0, prevResponsiveValue = 0,
     responsiveValueHasChanged = False, u_in = [], u_out = [], u_mapSize = 0, u_map = False\<rparr>"

text \<open>The same object at rest at the value 100: a concrete input for the sleeping branch.\<close>

definition settled :: rar where
  "settled = rar0\<lparr>smoothValue := 100, rawValue := 100, responsiveValue := 100,
     prevResponsiveValue := 100\<rparr>"

subsection \<open>The range mapper\<close>

text \<open>A read \<^verbatim>\<open>a[i]\<close> of a table of \<^verbatim>\<open>_mapSize\<close> entries. The index is an \<^verbatim>\<open>int\<close>
  (\<^verbatim>\<open>_mapSize-1\<close> and \<^verbatim>\<open>pos-1\<close> are computed after integer promotion).\<close>

definition tableRead :: "rar \<Rightarrow> int list \<Rightarrow> int \<Rightarrow> error + int" where
  "tableRead s a i =
     (if 0 \<le> i \<and> i < uint (u_mapSize s) \<and> nat i < length a then Inr (a ! nat i)
      else Inl OutOfBounds)"

text \<open>The loop \<^verbatim>\<open>while(val > _in[pos]) pos++;\<close> of line 173, from a given \<^verbatim>\<open>pos\<close>:
  the value of \<^verbatim>\<open>pos\<close> when it ends.\<close>

function scan :: "rar \<Rightarrow> int \<Rightarrow> 8 word \<Rightarrow> error + 8 word" where
  "scan s val pos =
     (case tableRead s (u_in s) (uint pos) of Inl e \<Rightarrow> Inl e | Inr inPos \<Rightarrow>
      if val > inPos then scan s val (pos + 1) else Inr pos)"
  by pat_completeness auto
termination scan
proof (relation "measure (\<lambda>(s, val, pos). nat (uint (u_mapSize s) - uint pos))")
  show "wf (measure (\<lambda>(s, val, pos). nat (uint (u_mapSize s) - uint pos)))" by simp
next
  fix s :: rar and val :: int and pos :: "8 word" and inPos :: int
  assume "tableRead s (u_in s) (uint pos) = Inr inPos"
  then have lt: "uint pos < uint (u_mapSize s)"
    by (simp add: tableRead_def split: if_splits)
  have "uint (u_mapSize s) < 2 ^ LENGTH(8)" by (rule uint_lt2p)
  with lt have "uint pos + uint (1 :: 8 word) < 2 ^ LENGTH(8)" by simp
  then have "uint (pos + 1) = uint pos + 1" by (simp add: uint_add_lem [THEN iffD1])
  with lt show "((s, val, pos + 1), (s, val, pos))
      \<in> measure (\<lambda>(s, val, pos). nat (uint (u_mapSize s) - uint pos))"
    by simp
qed

text \<open>\<^verbatim>\<open>multiMap\<close>, lines 149 to 182.\<close>

definition multiMap :: "rar \<Rightarrow> int \<Rightarrow> error + int" where
  "multiMap s val =
     (case tableRead s (u_in s) 0 of Inl e \<Rightarrow> Inl e | Inr in0 \<Rightarrow>
      if val \<le> in0 then tableRead s (u_out s) 0
      else
        (case tableRead s (u_in s) (uint (u_mapSize s) - 1) of Inl e \<Rightarrow> Inl e | Inr inLast \<Rightarrow>
         if val \<ge> inLast then tableRead s (u_out s) (uint (u_mapSize s) - 1)
         else
           (case scan s val 1 of Inl e \<Rightarrow> Inl e | Inr pos \<Rightarrow>
            (case tableRead s (u_in s) (uint pos) of Inl e \<Rightarrow> Inl e | Inr inPos \<Rightarrow>
             if val = inPos then tableRead s (u_out s) (uint pos)
             else
               (case tableRead s (u_in s) (uint pos - 1) of Inl e \<Rightarrow> Inl e | Inr inPrev \<Rightarrow>
                (case tableRead s (u_out s) (uint pos) of Inl e \<Rightarrow> Inl e | Inr outPos \<Rightarrow>
                 (case tableRead s (u_out s) (uint pos - 1) of Inl e \<Rightarrow> Inl e | Inr outPrev \<Rightarrow>
                  if inPos - inPrev = 0 then Inl DivisionByZero
                  else Inr (tdiv ((val - inPrev) * (outPos - outPrev)) (inPos - inPrev)
                            + outPrev))))))))"

text \<open>\<^verbatim>\<open>setMap\<close>, lines 185 to 199. The function returns \<^verbatim>\<open>void\<close> and has no
  failing path: its outcome is always the object with the table installed.\<close>

definition setMap :: "rar \<Rightarrow> int list \<Rightarrow> int list \<Rightarrow> 8 word \<Rightarrow> error + rar" where
  "setMap s inp out sz = Inr (s\<lparr>u_in := inp, u_out := out, u_mapSize := sz, u_map := True\<rparr>)"

text \<open>The table of the object is well formed: both arrays have \<^verbatim>\<open>_mapSize\<close> entries,
  there are at least two, and the input points are strictly increasing.\<close>

definition wf_table :: "rar \<Rightarrow> bool" where
  "wf_table s \<longleftrightarrow>
     length (u_in s) = unat (u_mapSize s) \<and> length (u_out s) = unat (u_mapSize s) \<and>
     2 \<le> unat (u_mapSize s) \<and> sorted_wrt (<) (u_in s)"

text \<open>A value of the 32-bit \<^verbatim>\<open>int\<close>.\<close>

definition fits_int :: "int \<Rightarrow> bool" where
  "fits_int x \<longleftrightarrow> - 2147483648 \<le> x \<and> x \<le> 2147483647"

text \<open>The interpolation of line 181 between the points \<open>i - 1\<close> and \<open>i\<close> stays inside
  \<^verbatim>\<open>int\<close>: the value and the table entries are \<^verbatim>\<open>int\<close>s, and so are the two
  differences of the numerator, their product, the difference of the denominator and the
  final sum (the quotient is not larger than the product).\<close>

definition interpolation_fits :: "rar \<Rightarrow> int \<Rightarrow> nat \<Rightarrow> bool" where
  "interpolation_fits s val i \<longleftrightarrow>
     fits_int val \<and> list_all fits_int (u_in s) \<and> list_all fits_int (u_out s) \<and>
     fits_int (val - u_in s ! (i - 1)) \<and>
     fits_int (u_out s ! i - u_out s ! (i - 1)) \<and>
     fits_int ((val - u_in s ! (i - 1)) * (u_out s ! i - u_out s ! (i - 1))) \<and>
     fits_int (u_in s ! i - u_in s ! (i - 1)) \<and>
     fits_int (u_out s ! (i - 1)
               + tdiv ((val - u_in s ! (i - 1)) * (u_out s ! i - u_out s ! (i - 1)))
                   (u_in s ! i - u_in s ! (i - 1)))"

text \<open>The table of the specification's examples, installed in the object.\<close>

definition demo_table :: rar where
  "demo_table = rar0\<lparr>u_in := [0, 100, 200], u_out := [0, 128, 255], u_mapSize := 3, u_map := True\<rparr>"

section \<open>Properties\<close>

subsection \<open>The filter: one call of update\<close>

lemma float_to_int_of_int: "float_to_int (real_of_int k) = k"
  by (simp add: float_to_int_def)

lemma float_to_int_range:
  assumes "0 \<le> x" and "x \<le> real_of_int m"
  shows "0 \<le> float_to_int x" and "float_to_int x \<le> m"
proof -
  from assms(1) have f: "float_to_int x = \<lfloor>x\<rfloor>" by (simp add: float_to_int_def)
  from assms(1) show "0 \<le> float_to_int x" by (simp add: f)
  from assms(2) have "\<lfloor>x\<rfloor> \<le> \<lfloor>real_of_int m\<rfloor>" by (rule floor_mono)
  then show "float_to_int x \<le> m" by (simp add: f)
qed

lemma edgeSnap_frame:
  "edgeSnap (s\<lparr>rawValue := a, prevResponsiveValue := b\<rparr>) v = edgeSnap s v"
  by (simp add: edgeSnap_def)

text \<open>The fields that a call never writes.\<close>

lemma update_config:
  "sleepEnable (update s v) = sleepEnable s"
  "edgeSnapEnable (update s v) = edgeSnapEnable s"
  "activityThreshold (update s v) = activityThreshold s"
  "analogResolution (update s v) = analogResolution s"
  "snapMultiplier (update s v) = snapMultiplier s"
  by (simp_all add: update_def getResponsiveValue_def Let_def split: prod.splits)

lemma update_rawValue: "rawValue (update s v) = v"
  by (simp add: update_def getResponsiveValue_def Let_def split: prod.splits)

lemma update_errorEMA:
  "errorEMA (update s v) =
     errorEMA s + ((real_of_int (edgeSnap s v) - smoothValue s) - errorEMA s) * 0.4"
  by (simp add: update_def getResponsiveValue_def Let_def edgeSnap_frame split: prod.splits)

lemma update_output: "responsiveValue (update s v) = float_to_int (smoothValue (update s v))"
  by (simp add: update_def getResponsiveValue_def Let_def split: prod.splits)

lemma update_changed:
  "responsiveValueHasChanged (update s v) \<longleftrightarrow> responsiveValue (update s v) \<noteq> responsiveValue s"
  "prevResponsiveValue (update s v) = responsiveValue s"
  by (simp_all add: update_def getResponsiveValue_def Let_def split: prod.splits)

lemma getResponsiveValue_is_update:
  "fst (getResponsiveValue s v) = responsiveValue (update s v)"
  by (simp add: update_def getResponsiveValue_def Let_def edgeSnap_frame split: prod.splits)

text \<open>The sleeping branch.\<close>

lemma update_asleep:
  assumes "sleepEnable s" and "\<bar>errorEMA (update s v)\<bar> < activityThreshold s"
  shows "update s v = s\<lparr>rawValue := v, prevResponsiveValue := responsiveValue s,
      errorEMA := errorEMA s + ((real_of_int (edgeSnap s v) - smoothValue s) - errorEMA s) * 0.4,
      sleeping := True,
      responsiveValue := float_to_int (smoothValue s),
      responsiveValueHasChanged := (float_to_int (smoothValue s) \<noteq> responsiveValue s)\<rparr>"
proof -
  from assms(2) have "\<bar>errorEMA s + ((real_of_int (edgeSnap s v) - smoothValue s) - errorEMA s) * 0.4\<bar>
      < activityThreshold s"
    by (simp add: update_errorEMA)
  with assms(1) show ?thesis
    by (simp add: update_def getResponsiveValue_def Let_def edgeSnap_frame)
qed

lemma update_asleep_smoothValue:
  assumes "sleepEnable s" and "\<bar>errorEMA (update s v)\<bar> < activityThreshold s"
  shows "smoothValue (update s v) = smoothValue s"
  by (subst update_asleep [OF assms]) simp

text \<open>The other branch ends with the clamp.\<close>

lemma update_awake_range:
  assumes "1 \<le> analogResolution s"
    and "\<not> (sleepEnable s \<and> \<bar>errorEMA (update s v)\<bar> < activityThreshold s)"
  shows "0 \<le> smoothValue (update s v)"
    and "smoothValue (update s v) \<le> real_of_int (analogResolution s - 1)"
proof -
  from assms(2) have awake: "\<not> (sleepEnable s \<and>
      \<bar>errorEMA s + ((real_of_int (edgeSnap s v) - smoothValue s) - errorEMA s) * 0.4\<bar>
        < activityThreshold s)"
    by (simp add: update_errorEMA)
  from assms(1) have r: "0 \<le> real_of_int (analogResolution s - 1)" by simp
  from awake r show "0 \<le> smoothValue (update s v)"
    by (auto simp add: update_def getResponsiveValue_def Let_def edgeSnap_frame)
  from awake r show "smoothValue (update s v) \<le> real_of_int (analogResolution s - 1)"
    by (auto simp add: update_def getResponsiveValue_def Let_def edgeSnap_frame)
qed

lemma update_keeps_range:
  assumes "1 \<le> analogResolution s"
    and "0 \<le> smoothValue s" and "smoothValue s \<le> real_of_int (analogResolution s - 1)"
  shows "0 \<le> smoothValue (update s v) \<and>
         smoothValue (update s v) \<le> real_of_int (analogResolution s - 1)"
proof (cases "sleepEnable s \<and> \<bar>errorEMA (update s v)\<bar> < activityThreshold s")
  case True
  then have "smoothValue (update s v) = smoothValue s" by (simp add: update_asleep_smoothValue)
  with assms(2,3) show ?thesis by simp
next
  case False
  from update_awake_range [OF assms(1) False] show ?thesis by simp
qed

lemma valid_config_update: "valid_config (update s v) = valid_config s"
  by (simp add: valid_config_def update_config)

text \<open>\<^verbatim>\<open>setSnapMultiplier\<close> clamps: a multiplier set through it satisfies the bounds of
  a valid configuration.\<close>

lemma setSnapMultiplier_range:
  "0 \<le> snapMultiplier (setSnapMultiplier s m)" "snapMultiplier (setSnapMultiplier s m) \<le> 1"
  by (simp_all add: setSnapMultiplier_def Let_def)

lemma update_asleep_pre:
  assumes "sleepEnable s"
    and "\<bar>errorEMA s + ((real_of_int (edgeSnap s v) - smoothValue s) - errorEMA s) * 0.4\<bar>
          < activityThreshold s"
  shows "update s v = s\<lparr>rawValue := v, prevResponsiveValue := responsiveValue s,
      errorEMA := errorEMA s + ((real_of_int (edgeSnap s v) - smoothValue s) - errorEMA s) * 0.4,
      sleeping := True,
      responsiveValue := float_to_int (smoothValue s),
      responsiveValueHasChanged := (float_to_int (smoothValue s) \<noteq> responsiveValue s)\<rparr>"
proof -
  from assms(2) have "\<bar>errorEMA (update s v)\<bar> < activityThreshold s"
    by (simp add: update_errorEMA)
  with assms(1) show ?thesis by (rule update_asleep)
qed

lemma update_awake_smoothValue:
  assumes "\<not> (sleepEnable s \<and>
      \<bar>errorEMA s + ((real_of_int (edgeSnap s v) - smoothValue s) - errorEMA s) * 0.4\<bar>
        < activityThreshold s)"
  shows "smoothValue (update s v) =
    (let x = smoothValue s + (real_of_int (edgeSnap s v) - smoothValue s)
               * snapCurve (real (float_to_uint \<bar>real_of_int (edgeSnap s v) - smoothValue s\<bar>)
                   * snapMultiplier s)
     in if x < 0 then 0
        else if x > real_of_int (analogResolution s - 1) then real_of_int (analogResolution s - 1)
        else x)"
  using assms
  by (auto simp add: update_def getResponsiveValue_def Let_def edgeSnap_frame)

subsection \<open>Concrete calls\<close>

lemma edgeSnap_middle:
  assumes "activityThreshold s \<le> real_of_int v"
    and "real_of_int v \<le> real_of_int (analogResolution s) - activityThreshold s"
  shows "edgeSnap s v = v"
  using assms by (simp add: edgeSnap_def)

lemma float_to_int_numeral: "float_to_int (numeral k) = numeral k"
  by (simp add: float_to_int_def)

lemma settled_fields:
  "sleepEnable settled" "edgeSnapEnable settled" "activityThreshold settled = 4"
  "analogResolution settled = 1024" "snapMultiplier settled = 1 / 100" "errorEMA settled = 0"
  "smoothValue settled = 100" "responsiveValue settled = 100"
  by (simp_all add: settled_def rar0_def)

lemma settled_step1:
  "update settled 101 = settled\<lparr>rawValue := 101, prevResponsiveValue := 100, errorEMA := 2 / 5,
     sleeping := True, responsiveValue := 100, responsiveValueHasChanged := False\<rparr>"
proof -
  have e: "edgeSnap settled 101 = 101"
    by (rule edgeSnap_middle) (simp_all add: settled_fields)
  have "update settled 101 = settled\<lparr>rawValue := 101, prevResponsiveValue := responsiveValue settled,
      errorEMA := errorEMA settled
        + ((real_of_int (edgeSnap settled 101) - smoothValue settled) - errorEMA settled) * 0.4,
      sleeping := True,
      responsiveValue := float_to_int (smoothValue settled),
      responsiveValueHasChanged := (float_to_int (smoothValue settled) \<noteq> responsiveValue settled)\<rparr>"
    by (rule update_asleep_pre) (simp_all add: settled_fields e)
  then show ?thesis by (simp add: settled_fields e float_to_int_numeral)
qed

lemma settled_step2:
  "update (settled\<lparr>rawValue := 101, prevResponsiveValue := 100, errorEMA := 2 / 5,
     sleeping := True, responsiveValue := 100, responsiveValueHasChanged := False\<rparr>) 99
   = settled\<lparr>rawValue := 99, prevResponsiveValue := 100,
     errorEMA := - (4 / 25), sleeping := True, responsiveValue := 100,
     responsiveValueHasChanged := False\<rparr>"
proof -
  let ?s = "settled\<lparr>rawValue := 101, prevResponsiveValue := 100, errorEMA := 2 / 5,
     sleeping := True, responsiveValue := 100, responsiveValueHasChanged := False\<rparr>"
  have e: "edgeSnap ?s 99 = 99"
    by (rule edgeSnap_middle) (simp_all add: settled_fields)
  have "update ?s 99 = ?s\<lparr>rawValue := 99, prevResponsiveValue := responsiveValue ?s,
      errorEMA := errorEMA ?s + ((real_of_int (edgeSnap ?s 99) - smoothValue ?s) - errorEMA ?s) * 0.4,
      sleeping := True,
      responsiveValue := float_to_int (smoothValue ?s),
      responsiveValueHasChanged := (float_to_int (smoothValue ?s) \<noteq> responsiveValue ?s)\<rparr>"
    by (rule update_asleep_pre) (simp_all add: settled_fields e)
  then show ?thesis by (simp add: settled_fields e float_to_int_numeral)
qed

text \<open>While asleep \<open>errorEMA\<close> follows the samples; a sample far from \<open>smoothValue\<close>
  takes it over the threshold, and that call moves \<open>smoothValue\<close>.\<close>

lemma settled_wakes: "smoothValue (update (update settled 101) 200) = 200"
proof -
  let ?s = "settled\<lparr>rawValue := 101, prevResponsiveValue := 100, errorEMA := 2 / 5,
     sleeping := True, responsiveValue := 100, responsiveValueHasChanged := False\<rparr>"
  have e: "edgeSnap ?s 200 = 200"
    by (rule edgeSnap_middle) (simp_all add: settled_fields)
  have "smoothValue (update ?s 200) =
    (let x = smoothValue ?s + (real_of_int (edgeSnap ?s 200) - smoothValue ?s)
               * snapCurve (real (float_to_uint \<bar>real_of_int (edgeSnap ?s 200) - smoothValue ?s\<bar>)
                   * snapMultiplier ?s)
     in if x < 0 then 0
        else if x > real_of_int (analogResolution ?s - 1) then real_of_int (analogResolution ?s - 1)
        else x)"
    by (rule update_awake_smoothValue) (simp add: settled_fields e)
  then show ?thesis
    by (simp add: settled_step1 settled_fields e float_to_uint_def snapCurve_def Let_def)
qed

subsection \<open>The filter: sequences of calls\<close>

lemma run_keeps_range:
  assumes "1 \<le> analogResolution s"
    and "0 \<le> smoothValue s" and "smoothValue s \<le> real_of_int (analogResolution s - 1)"
  shows "\<forall>t\<in>set (run s vs). 0 \<le> responsiveValue t \<and> responsiveValue t \<le> analogResolution s - 1"
  using assms
proof (induction vs arbitrary: s)
  case Nil
  then show ?case by simp
next
  case (Cons v vs)
  let ?u = "update s v"
  from update_keeps_range [OF Cons.prems, of v]
  have lo: "0 \<le> smoothValue ?u" and hi: "smoothValue ?u \<le> real_of_int (analogResolution s - 1)"
    by simp_all
  have res: "analogResolution ?u = analogResolution s" by (rule update_config)
  have here: "0 \<le> responsiveValue ?u \<and> responsiveValue ?u \<le> analogResolution s - 1"
    using float_to_int_range [OF lo hi] by (simp add: update_output)
  have "\<forall>t\<in>set (run ?u vs). 0 \<le> responsiveValue t \<and> responsiveValue t \<le> analogResolution ?u - 1"
    using Cons.prems(1) lo hi by (intro Cons.IH) (simp_all only: res)
  with here show ?case by (simp add: res)
qed

lemma run_asleep:
  assumes "sleepEnable s"
    and "\<forall>t\<in>set (run s vs). \<bar>errorEMA t\<bar> < activityThreshold t"
  shows "\<forall>t\<in>set (run s vs). responsiveValue t = float_to_int (smoothValue s) \<and>
           smoothValue t = smoothValue s \<and>
           (responsiveValue s = float_to_int (smoothValue s) \<longrightarrow> \<not> responsiveValueHasChanged t)"
  using assms
proof (induction vs arbitrary: s)
  case Nil
  then show ?case by simp
next
  case (Cons v vs)
  let ?u = "update s v"
  have thr: "activityThreshold ?u = activityThreshold s" by (rule update_config)
  from Cons.prems(2) have quiet: "\<bar>errorEMA ?u\<bar> < activityThreshold s" by (simp add: thr)
  have sm: "smoothValue ?u = smoothValue s"
    using Cons.prems(1) quiet by (rule update_asleep_smoothValue)
  have out: "responsiveValue ?u = float_to_int (smoothValue s)"
    by (simp add: update_output sm)
  have ch: "responsiveValue s = float_to_int (smoothValue s) \<longrightarrow> \<not> responsiveValueHasChanged ?u"
    by (simp add: update_changed out)
  have en: "sleepEnable ?u" using Cons.prems(1) by (simp add: update_config)
  from Cons.prems(2) have rest: "\<forall>t\<in>set (run ?u vs). \<bar>errorEMA t\<bar> < activityThreshold t" by simp
  from Cons.IH [OF en rest] have
    "\<forall>t\<in>set (run ?u vs). responsiveValue t = float_to_int (smoothValue s) \<and>
       smoothValue t = smoothValue s \<and>
       (responsiveValue s = float_to_int (smoothValue s) \<longrightarrow> \<not> responsiveValueHasChanged t)"
    by (simp add: sm out)
  with sm out ch show ?case by simp
qed

text \<open>
  Claim C1. For a valid configuration (a resolution from 1 to \<open>2^24\<close>, a snap multiplier
  from 0 to 1), the range \<open>[0, resolutionMax - 1]\<close> of
  \<open>smoothValue\<close> is kept by every call of \<^verbatim>\<open>update\<close>, and the integer that the call
  emits lies in it, also when the call returns from the sleeping branch, which has no clamp.
  Hence, from the initial \<open>smoothValue = 0\<close>, every output of every sequence of samples
  lies in \<open>[0, resolutionMax - 1]\<close>.
\<close>

theorem output_bound:
  assumes "valid_config s"
  shows "(0 \<le> smoothValue s \<and> smoothValue s \<le> real_of_int (analogResolution s - 1) \<longrightarrow>
      0 \<le> smoothValue (update s v) \<and>
      smoothValue (update s v) \<le> real_of_int (analogResolution (update s v) - 1) \<and>
      0 \<le> responsiveValue (update s v) \<and> responsiveValue (update s v) \<le> analogResolution s - 1 \<and>
      0 \<le> fst (getResponsiveValue s v) \<and> fst (getResponsiveValue s v) \<le> analogResolution s - 1 \<and>
      valid_config (update s v)) \<and>
    (smoothValue s = 0 \<longrightarrow>
      (\<forall>t\<in>set (run s vs). 0 \<le> responsiveValue t \<and> responsiveValue t \<le> analogResolution s - 1))"
proof (intro conjI impI)
  from assms have r: "1 \<le> analogResolution s" by (simp add: valid_config_def)
  {
    assume "smoothValue s = 0"
    with r have "0 \<le> smoothValue s" and "smoothValue s \<le> real_of_int (analogResolution s - 1)"
      by simp_all
    with r show "\<forall>t\<in>set (run s vs). 0 \<le> responsiveValue t \<and> responsiveValue t \<le> analogResolution s - 1"
      by (rule run_keeps_range)
  }
  assume inv: "0 \<le> smoothValue s \<and> smoothValue s \<le> real_of_int (analogResolution s - 1)"
  then have lo0: "0 \<le> smoothValue s" and hi0: "smoothValue s \<le> real_of_int (analogResolution s - 1)"
    by simp_all
  from update_keeps_range [OF r lo0 hi0, of v]
  have lo: "0 \<le> smoothValue (update s v)"
    and hi: "smoothValue (update s v) \<le> real_of_int (analogResolution s - 1)" by simp_all
  show "0 \<le> smoothValue (update s v)" by (rule lo)
  show "smoothValue (update s v) \<le> real_of_int (analogResolution (update s v) - 1)"
    using hi by (simp only: update_config)
  show "0 \<le> responsiveValue (update s v)"
    using float_to_int_range(1) [OF lo hi] by (simp only: update_output)
  show "responsiveValue (update s v) \<le> analogResolution s - 1"
    using float_to_int_range(2) [OF lo hi] by (simp only: update_output)
  show "valid_config (update s v)" using assms by (simp only: valid_config_update)
  have g: "fst (getResponsiveValue s v) = responsiveValue (update s v)"
    by (rule getResponsiveValue_is_update)
  show "0 \<le> fst (getResponsiveValue s v)"
    using float_to_int_range(1) [OF lo hi] by (simp only: g update_output)
  show "fst (getResponsiveValue s v) \<le> analogResolution s - 1"
    using float_to_int_range(2) [OF lo hi] by (simp only: g update_output)
qed

lemma output_bound_example: "valid_config rar0" "smoothValue rar0 = 0"
  by (simp_all add: valid_config_def rar0_def)

theorem output_bound_witness:
  "valid_config rar0 \<and> smoothValue rar0 = 0 \<and>
   0 \<le> responsiveValue (update rar0 500) \<and> responsiveValue (update rar0 500) \<le> 1023 \<and>
   0 \<le> responsiveValue (update (update rar0 500) 3) \<and>
   responsiveValue (update (update rar0 500) 3) \<le> 1023"
proof -
  have r: "analogResolution rar0 = 1024" by (simp add: rar0_def)
  from output_bound [OF output_bound_example(1), of 0 "[500, 3]"] output_bound_example
  show ?thesis by (simp add: r)
qed

text \<open>
  Claim C2. With \<open>sleepEnable\<close>, a call of \<^verbatim>\<open>update\<close> after whose update of
  \<open>errorEMA\<close> its magnitude is below \<open>activityThreshold\<close> returns the truncated
  \<open>smoothValue\<close> and leaves \<open>smoothValue\<close> as it was. Hence, over a run of consecutive
  calls that all keep \<open>errorEMA\<close> below the threshold, every output is the truncated
  \<open>smoothValue\<close> of the start of the run, whatever the samples are, and the changed flag
  stays off when the output before the run was that value.
\<close>

theorem sleep_freeze:
  assumes "sleepEnable s"
  shows "(\<bar>errorEMA (update s v)\<bar> < activityThreshold s \<longrightarrow>
      responsiveValue (update s v) = float_to_int (smoothValue s) \<and>
      fst (getResponsiveValue s v) = float_to_int (smoothValue s) \<and>
      smoothValue (update s v) = smoothValue s) \<and>
    ((\<forall>t\<in>set (run s vs). \<bar>errorEMA t\<bar> < activityThreshold t) \<longrightarrow>
      (\<forall>t\<in>set (run s vs). responsiveValue t = float_to_int (smoothValue s) \<and>
         smoothValue t = smoothValue s \<and>
         (responsiveValue s = float_to_int (smoothValue s) \<longrightarrow> \<not> responsiveValueHasChanged t)))"
proof (intro conjI impI)
  assume "\<forall>t\<in>set (run s vs). \<bar>errorEMA t\<bar> < activityThreshold t"
  with assms show "\<forall>t\<in>set (run s vs). responsiveValue t = float_to_int (smoothValue s) \<and>
         smoothValue t = smoothValue s \<and>
         (responsiveValue s = float_to_int (smoothValue s) \<longrightarrow> \<not> responsiveValueHasChanged t)"
    by (rule run_asleep)
next
  assume quiet: "\<bar>errorEMA (update s v)\<bar> < activityThreshold s"
  from assms quiet show sm: "smoothValue (update s v) = smoothValue s"
    by (rule update_asleep_smoothValue)
  then show out: "responsiveValue (update s v) = float_to_int (smoothValue s)"
    by (simp add: update_output)
  then show "fst (getResponsiveValue s v) = float_to_int (smoothValue s)"
    by (simp add: getResponsiveValue_is_update)
qed

theorem sleep_freeze_witness:
  "sleepEnable settled \<and> map responsiveValue (run settled [101, 99]) = [100, 100] \<and>
   map smoothValue (run settled [101, 99]) = [100, 100] \<and>
   map responsiveValueHasChanged (run settled [101, 99]) = [False, False]"
proof -
  have en: "sleepEnable settled" by (rule settled_fields)
  have quiet: "\<forall>t\<in>set (run settled [101, 99]). \<bar>errorEMA t\<bar> < activityThreshold t"
    by (simp add: settled_step1 settled_step2 settled_fields)
  from sleep_freeze [OF en, of 101 "[101, 99]"] quiet
  have "\<forall>t\<in>set (run settled [101, 99]). responsiveValue t = 100 \<and> smoothValue t = 100 \<and>
      \<not> responsiveValueHasChanged t"
    by (simp add: settled_fields float_to_int_numeral)
  with en show ?thesis by simp
qed

text \<open>
  Claim C10. A call that sleeps does not freeze the whole state: it stores the new sample
  in \<open>rawValue\<close>, moves \<open>errorEMA\<close> by
  \<open>((newValue - smoothValue) - errorEMA) * 0.4\<close> (with \<open>newValue\<close> the sample after the
  edge snap), sets \<open>sleeping\<close>, and recomputes \<open>prevResponsiveValue\<close>,
  \<open>responsiveValue\<close> and the changed flag. Every other member, \<open>smoothValue\<close> among
  them, is as before, so the emitted value is the truncated \<open>smoothValue\<close> of before.
\<close>

theorem asleep_frame:
  assumes "sleepEnable s"
    and "\<bar>errorEMA s + ((real_of_int (edgeSnap s v) - smoothValue s) - errorEMA s) * 0.4\<bar>
          < activityThreshold s"
  shows "update s v = s\<lparr>rawValue := v,
      errorEMA := errorEMA s + ((real_of_int (edgeSnap s v) - smoothValue s) - errorEMA s) * 0.4,
      sleeping := True,
      prevResponsiveValue := responsiveValue s,
      responsiveValue := float_to_int (smoothValue s),
      responsiveValueHasChanged := (float_to_int (smoothValue s) \<noteq> responsiveValue s)\<rparr>"
proof -
  from assms(2) have "\<bar>errorEMA (update s v)\<bar> < activityThreshold s"
    by (simp add: update_errorEMA)
  with assms(1) have "update s v = s\<lparr>rawValue := v, prevResponsiveValue := responsiveValue s,
      errorEMA := errorEMA s + ((real_of_int (edgeSnap s v) - smoothValue s) - errorEMA s) * 0.4,
      sleeping := True,
      responsiveValue := float_to_int (smoothValue s),
      responsiveValueHasChanged := (float_to_int (smoothValue s) \<noteq> responsiveValue s)\<rparr>"
    by (rule update_asleep)
  then show ?thesis by simp
qed

theorem asleep_frame_witness:
  "sleepEnable settled \<and>
   update settled 101 = settled\<lparr>rawValue := 101, errorEMA := 2 / 5, sleeping := True,
     prevResponsiveValue := 100, responsiveValue := 100, responsiveValueHasChanged := False\<rparr>"
proof -
  have en: "sleepEnable settled" by (rule settled_fields)
  have e: "edgeSnap settled 101 = 101"
    by (rule edgeSnap_middle) (simp_all add: settled_fields)
  have "\<bar>errorEMA settled + ((real_of_int (edgeSnap settled 101) - smoothValue settled)
      - errorEMA settled) * 0.4\<bar> < activityThreshold settled"
    by (simp add: e settled_fields)
  from asleep_frame [OF en this] have "update settled 101 =
      settled\<lparr>rawValue := 101, errorEMA := 2 / 5, sleeping := True, prevResponsiveValue := 100,
        responsiveValue := 100, responsiveValueHasChanged := False\<rparr>"
    by (simp add: e settled_fields float_to_int_numeral)
  with en show ?thesis by simp
qed

subsection \<open>The snap curve\<close>

lemma snapCurve_min: "snapCurve x = min (2 * (1 - 1 / (x + 1))) 1"
  by (simp add: snapCurve_def Let_def min_def mult.commute)

lemma snapCurve_zero: "snapCurve 0 = 0"
  by (simp add: snapCurve_def)

lemma snapCurve_one:
  assumes "1 \<le> x"
  shows "snapCurve x = 1"
proof -
  from assms have "1 / (x + 1) \<le> 1 / 2" by (intro divide_left_mono) simp_all
  then have "1 \<le> 2 * (1 - 1 / (x + 1))" by simp
  then show ?thesis by (simp add: snapCurve_min)
qed

lemma snapCurve_mono:
  assumes "0 \<le> x" and "x \<le> y"
  shows "snapCurve x \<le> snapCurve y"
proof -
  from assms have "1 / (y + 1) \<le> 1 / (x + 1)" by (intro divide_left_mono) simp_all
  then have "2 * (1 - 1 / (x + 1)) \<le> 2 * (1 - 1 / (y + 1))" by simp
  then show ?thesis unfolding snapCurve_min by (rule min.mono) simp
qed

lemma snapCurve_range:
  assumes "0 \<le> x"
  shows "0 \<le> snapCurve x" and "snapCurve x \<le> 1"
proof -
  from snapCurve_mono [OF order_refl assms] show "0 \<le> snapCurve x" by (simp add: snapCurve_zero)
  show "snapCurve x \<le> 1" by (simp add: snapCurve_min)
qed

lemma snapCurve_tendsto: "(snapCurve \<longlongrightarrow> 1) at_top"
proof (rule tendsto_eventually)
  show "eventually (\<lambda>x. snapCurve x = 1) at_top"
    unfolding eventually_at_top_linorder by (intro exI [of _ 1] allI impI snapCurve_one)
qed

text \<open>
  Claim C6, as amended. \<^verbatim>\<open>snapCurve(x)\<close> is \<open>min (2 * (1 - 1 / (x + 1))) 1\<close>; it is 0 at
  0, it is 1 from 1 on and so tends to 1, and it does not decrease on the non-negative
  numbers. Hence \<open>snap = snapCurve (diff * snapMultiplier)\<close>, with \<open>diff\<close> an unsigned
  integer and a snap multiplier that is not negative, lies in the closed range from 0 to 1;
  the value 0 is taken (when \<open>diff\<close> or the multiplier is 0), so the range is not open at 0.
\<close>

theorem snapCurve_shape:
  "snapCurve x = min (2 * (1 - 1 / (x + 1))) 1 \<and>
   snapCurve 0 = 0 \<and>
   (snapCurve \<longlongrightarrow> 1) at_top \<and>
   (1 \<le> x \<longrightarrow> snapCurve x = 1) \<and>
   (0 \<le> x \<and> x \<le> y \<longrightarrow> snapCurve x \<le> snapCurve y) \<and>
   (0 \<le> m \<longrightarrow> 0 \<le> snapCurve (real d * m) \<and> snapCurve (real d * m) \<le> 1) \<and>
   snapCurve (real 0 * m) = 0 \<and> snapCurve (real d * 0) = 0"
proof (intro conjI impI)
  show "snapCurve x = min (2 * (1 - 1 / (x + 1))) 1" by (rule snapCurve_min)
  show "snapCurve 0 = 0" by (rule snapCurve_zero)
  show "(snapCurve \<longlongrightarrow> 1) at_top" by (rule snapCurve_tendsto)
  show "snapCurve x = 1" if "1 \<le> x" using that by (rule snapCurve_one)
  show "snapCurve x \<le> snapCurve y" if "0 \<le> x \<and> x \<le> y"
    using that by (simp add: snapCurve_mono)
  show "0 \<le> snapCurve (real d * m)" if "0 \<le> m" using that by (simp add: snapCurve_range)
  show "snapCurve (real d * m) \<le> 1" if "0 \<le> m" using that by (simp add: snapCurve_range)
  show "snapCurve (real 0 * m) = 0" by (simp add: snapCurve_zero)
  show "snapCurve (real d * 0) = 0" by (simp add: snapCurve_zero)
qed

theorem snapCurve_shape_witness:
  "snapCurve (1 / 2) = 2 / 3 \<and> snapCurve 3 = 1 \<and> snapCurve (1 / 2) \<le> snapCurve 3 \<and>
   0 \<le> snapCurve (real 50 * (1 / 100)) \<and> snapCurve (real 50 * (1 / 100)) \<le> 1"
proof -
  from snapCurve_shape [of "1 / 2" 3 "1 / 100" 50]
  have "snapCurve (1 / 2) = min (2 * (1 - 1 / (1 / 2 + 1))) 1"
    and "snapCurve (1 / 2) \<le> snapCurve 3"
    and "0 \<le> snapCurve (real 50 * (1 / 100)) \<and> snapCurve (real 50 * (1 / 100)) \<le> 1"
    by simp_all
  moreover from snapCurve_shape [of 3 3 0 0] have "snapCurve 3 = 1" by simp
  ultimately show ?thesis by simp
qed

text \<open>The snap factor of a call with the sample equal to \<open>smoothValue\<close> (here the first
  sample 0 on the initial object, with sleep disabled so that the call reaches the snap
  curve) is 0, outside the half-open range \<open>(0, 1]\<close>.\<close>

theorem snap_factor_zero:
  "\<not> (0 < snapCurve (real (float_to_uint \<bar>real_of_int 0 - smoothValue (rar0\<lparr>sleepEnable := False\<rparr>)\<bar>)
                      * snapMultiplier (rar0\<lparr>sleepEnable := False\<rparr>)))"
  by (simp add: rar0_def float_to_uint_def snapCurve_zero)

subsection \<open>The edge snap\<close>

text \<open>
  Claim C7, as amended. For a sample, a resolution and a threshold in the range where the
  arithmetic of the code is exact (\<open>edgeSnap_exact\<close>), the edge snap rewrites the sample
  if and only if \<open>sleepEnable\<close> and \<open>edgeSnapEnable\<close> are both set: a sample below \<open>activityThreshold\<close> becomes
  \<open>rawSample * 2 - activityThreshold\<close>, otherwise a sample above
  \<open>resolutionMax - activityThreshold\<close> becomes
  \<open>rawSample * 2 - resolutionMax + activityThreshold\<close>, each converted back to an integer
  by truncation toward zero (the sample is an \<^verbatim>\<open>int\<close>), which changes nothing when the
  threshold is a whole number; in all other cases the sample is as given. The filter goes on
  with the rewritten sample, \<open>rawValue\<close> keeps the sample as given.
\<close>

theorem edgeSnap_cases:
  assumes "edgeSnap_exact s v"
  shows "(\<not> (sleepEnable s \<and> edgeSnapEnable s) \<longrightarrow> edgeSnap s v = v) \<and>
   (sleepEnable s \<and> edgeSnapEnable s \<and> real_of_int v < activityThreshold s \<longrightarrow>
      edgeSnap s v = float_to_int (real_of_int v * 2 - activityThreshold s)) \<and>
   (sleepEnable s \<and> edgeSnapEnable s \<and> \<not> real_of_int v < activityThreshold s \<and>
    real_of_int v > real_of_int (analogResolution s) - activityThreshold s \<longrightarrow>
      edgeSnap s v = float_to_int (real_of_int v * 2 - real_of_int (analogResolution s)
                                    + activityThreshold s)) \<and>
   (\<not> real_of_int v < activityThreshold s \<and>
    \<not> real_of_int v > real_of_int (analogResolution s) - activityThreshold s \<longrightarrow>
      edgeSnap s v = v) \<and>
   (activityThreshold s = real_of_int k \<longrightarrow>
      edgeSnap s v =
        (if sleepEnable s \<and> edgeSnapEnable s then
           (if v < k then v * 2 - k
            else if v > analogResolution s - k then v * 2 - analogResolution s + k
            else v)
         else v)) \<and>
   rawValue (update s v) = v \<and>
   errorEMA (update s v) =
     errorEMA s + ((real_of_int (edgeSnap s v) - smoothValue s) - errorEMA s) * 0.4"
proof -
  have whole: "edgeSnap s v =
        (if sleepEnable s \<and> edgeSnapEnable s then
           (if v < k then v * 2 - k
            else if v > analogResolution s - k then v * 2 - analogResolution s + k
            else v)
         else v)" if k: "activityThreshold s = real_of_int k"
  proof -
    have a: "real_of_int (v * 2) - real_of_int k = real_of_int (v * 2 - k)" by simp
    have b: "real_of_int (v * 2 - analogResolution s) + real_of_int k
        = real_of_int (v * 2 - analogResolution s + k)" by simp
    have c: "real_of_int v < real_of_int k \<longleftrightarrow> v < k" by simp
    have d: "real_of_int (analogResolution s) - real_of_int k < real_of_int v
        \<longleftrightarrow> analogResolution s - k < v"
      by (simp only: of_int_diff [symmetric] of_int_less_iff)
    show ?thesis unfolding edgeSnap_def k
      by (simp only: a b c d float_to_int_of_int)
  qed
  have cases: "(\<not> (sleepEnable s \<and> edgeSnapEnable s) \<longrightarrow> edgeSnap s v = v) \<and>
   (sleepEnable s \<and> edgeSnapEnable s \<and> real_of_int v < activityThreshold s \<longrightarrow>
      edgeSnap s v = float_to_int (real_of_int v * 2 - activityThreshold s)) \<and>
   (sleepEnable s \<and> edgeSnapEnable s \<and> \<not> real_of_int v < activityThreshold s \<and>
    real_of_int v > real_of_int (analogResolution s) - activityThreshold s \<longrightarrow>
      edgeSnap s v = float_to_int (real_of_int v * 2 - real_of_int (analogResolution s)
                                    + activityThreshold s)) \<and>
   (\<not> real_of_int v < activityThreshold s \<and>
    \<not> real_of_int v > real_of_int (analogResolution s) - activityThreshold s \<longrightarrow>
      edgeSnap s v = v)"
    by (simp add: edgeSnap_def)
  from cases whole show ?thesis by (simp only: update_rawValue update_errorEMA) simp
qed

lemma edgeSnap_exact_examples:
  "edgeSnap_exact rar0 2" "edgeSnap_exact rar0 1022" "edgeSnap_exact rar0 500"
  "edgeSnap_exact (rar0\<lparr>edgeSnapEnable := False\<rparr>) 2"
  "edgeSnap_exact (rar0\<lparr>activityThreshold := 9 / 2\<rparr>) 1"
  by (simp_all add: edgeSnap_exact_def rar0_def)

theorem edgeSnap_cases_witness:
  "edgeSnap_exact rar0 2 \<and> edgeSnap rar0 2 = 0 \<and> edgeSnap rar0 1022 = 1024 \<and>
   edgeSnap rar0 500 = 500 \<and> edgeSnap (rar0\<lparr>edgeSnapEnable := False\<rparr>) 2 = 2 \<and>
   edgeSnap (rar0\<lparr>activityThreshold := 9 / 2\<rparr>) 1 = - 2 \<and> rawValue (update rar0 2) = 2"
proof -
  have f: "sleepEnable rar0" "edgeSnapEnable rar0" "activityThreshold rar0 = real_of_int 4"
    "analogResolution rar0 = 1024"
    by (simp_all add: rar0_def)
  from edgeSnap_cases [OF edgeSnap_exact_examples(1), of 4] f have "edgeSnap rar0 2 = 0" by simp
  moreover from edgeSnap_cases [OF edgeSnap_exact_examples(2), of 4] f
  have "edgeSnap rar0 1022 = 1024" by simp
  moreover from edgeSnap_cases [OF edgeSnap_exact_examples(3), of 4] f
  have "edgeSnap rar0 500 = 500" by simp
  moreover from edgeSnap_cases [OF edgeSnap_exact_examples(4), of 4]
  have "edgeSnap (rar0\<lparr>edgeSnapEnable := False\<rparr>) 2 = 2" by simp
  moreover from edgeSnap_cases [OF edgeSnap_exact_examples(5), of 0]
  have "edgeSnap (rar0\<lparr>activityThreshold := 9 / 2\<rparr>) 1 = float_to_int (real_of_int 1 * 2 - 9 / 2)"
    by (simp add: rar0_def)
  then have "edgeSnap (rar0\<lparr>activityThreshold := 9 / 2\<rparr>) 1 = - 2"
    by (simp add: float_to_int_def)
  moreover from edgeSnap_cases [OF edgeSnap_exact_examples(1), of 4]
  have "rawValue (update rar0 2) = 2" by simp
  ultimately show ?thesis using edgeSnap_exact_examples(1) by simp
qed

text \<open>With the threshold 4.5 the sample 1 becomes -2, not \<open>1 * 2 - 4.5 = -2.5\<close>.\<close>

theorem edgeSnap_truncates:
  "real_of_int (edgeSnap (rar0\<lparr>activityThreshold := 9 / 2\<rparr>) 1)
     \<noteq> real_of_int 1 * 2 - activityThreshold (rar0\<lparr>activityThreshold := 9 / 2\<rparr>)"
  by (simp add: edgeSnap_def rar0_def float_to_int_def)

subsection \<open>The flat multiplier\<close>

lemma getResponsiveValue_flat:
  "getResponsiveValue s v = getResponsiveValue_without_flat s v"
proof -
  have one: "x * (0.5 + 0.5) = x" for x :: real by simp
  show ?thesis
    unfolding getResponsiveValue_def getResponsiveValue_without_flat_def
    by (simp only: one if_cancel Let_def)
qed

lemma update_flat: "update s v = update_without_flat s v"
  by (simp add: update_def update_without_flat_def getResponsiveValue_flat)

lemma run_flat: "run s vs = run_without_flat s vs"
  by (induction vs arbitrary: s) (simp_all add: update_flat)

text \<open>
  Claim C8. The statement \<^verbatim>\<open>snap *= 0.5 + 0.5\<close> multiplies \<open>snap\<close> by 1 and changes
  nothing: the filter and the filter without the statement return the same value and the same
  object on every call, hence on every sequence of calls, for every configuration.
\<close>

theorem flat_multiplier_noop:
  "x * (0.5 + 0.5) = (x :: real) \<and>
   getResponsiveValue s v = getResponsiveValue_without_flat s v \<and>
   update s v = update_without_flat s v \<and>
   run s vs = run_without_flat s vs"
  by (simp add: getResponsiveValue_flat update_flat run_flat)

theorem flat_multiplier_noop_witness:
  "update (rar0\<lparr>sleepEnable := True\<rparr>) 500 = update_without_flat (rar0\<lparr>sleepEnable := True\<rparr>) 500 \<and>
   run rar0 [500, 3] = run_without_flat rar0 [500, 3]"
  using flat_multiplier_noop [of 1 "rar0\<lparr>sleepEnable := True\<rparr>" 500 "[]"]
    flat_multiplier_noop [of 1 rar0 500 "[500, 3]"]
  by (simp only: simp_thms)

subsection \<open>Reading the table and scanning it\<close>

lemma word8_unat_succ:
  fixes pos m :: "8 word"
  assumes "unat pos < unat m"
  shows "unat (pos + 1) = Suc (unat pos)"
proof -
  have "unat m < 2 ^ LENGTH(8)" by (rule unsigned_less)
  with assms have "unat pos + unat (1 :: 8 word) < 2 ^ LENGTH(8)" by simp
  then show ?thesis by (simp add: unat_add_lem [THEN iffD1])
qed

lemma int_less_uint:
  "i < unat (m :: 8 word) \<Longrightarrow> int i < uint m"
  by (metis of_nat_unat of_nat_less_iff)

lemma unat_less_uint:
  fixes p m :: "8 word"
  shows "unat p < unat m \<Longrightarrow> uint p < uint m"
  by (simp add: word_less_def [symmetric] word_less_nat_alt)

text \<open>The loop stops at the first index, from \<open>pos\<close> on, whose input point is not below
  \<open>val\<close>, when there is one inside the table.\<close>

lemma scan_finds:
  assumes len: "length (u_in s) = unat (u_mapSize s)"
    and "unat pos \<le> k" and k: "k < unat (u_mapSize s)"
    and "val \<le> u_in s ! k"
    and "\<forall>j. unat pos \<le> j \<and> j < k \<longrightarrow> u_in s ! j < val"
  shows "scan s val pos = Inr (word_of_nat k)"
  using assms(2,4,5)
proof (induction "k - unat pos" arbitrary: pos)
  case 0
  then have eq: "unat pos = k" by simp
  then have "uint pos < uint (u_mapSize s)" using k by (intro unat_less_uint) simp
  then have rd: "tableRead s (u_in s) (uint pos) = Inr (u_in s ! k)"
    using eq len k by (simp add: tableRead_def)
  have "word_of_nat k = pos" using eq by auto
  with rd 0 show ?case by (subst scan.simps) simp
next
  case (Suc d)
  then have lt: "unat pos < k" by simp
  then have below: "unat pos < unat (u_mapSize s)" using k by simp
  then have su: "unat (pos + 1) = Suc (unat pos)" by (rule word8_unat_succ)
  have "uint pos < uint (u_mapSize s)" using below by (rule unat_less_uint)
  then have rd: "tableRead s (u_in s) (uint pos) = Inr (u_in s ! unat pos)"
    using len lt k by (simp add: tableRead_def)
  have small: "u_in s ! unat pos < val" using Suc.prems lt by simp
  have "scan s val (pos + 1) = Inr (word_of_nat k)"
  proof (rule Suc.hyps(1))
    show "d = k - unat (pos + 1)" using Suc.hyps(2) su by simp
    show "unat (pos + 1) \<le> k" using su lt by simp
    show "val \<le> u_in s ! k" by (rule Suc.prems(2))
    show "\<forall>j. unat (pos + 1) \<le> j \<and> j < k \<longrightarrow> u_in s ! j < val"
      using Suc.prems(3) su by simp
  qed
  with rd small show ?case by (subst scan.simps) simp
qed

lemma wf_table_reads:
  assumes "wf_table s" and "i < unat (u_mapSize s)"
  shows "tableRead s (u_in s) (int i) = Inr (u_in s ! i)"
    and "tableRead s (u_out s) (int i) = Inr (u_out s ! i)"
proof -
  from assms(2) have b: "int i < uint (u_mapSize s)" by (rule int_less_uint)
  from assms have "i < length (u_in s)" and "i < length (u_out s)"
    by (simp_all only: wf_table_def)
  with b show "tableRead s (u_in s) (int i) = Inr (u_in s ! i)"
    and "tableRead s (u_out s) (int i) = Inr (u_out s ! i)"
    by (simp_all add: tableRead_def)
qed

lemma wf_table_strict:
  assumes "wf_table s" and "i < j" and "j < unat (u_mapSize s)"
  shows "u_in s ! i < u_in s ! j"
  using assms by (simp add: wf_table_def sorted_wrt_iff_nth_less)

lemma uint_mapSize_minus_one:
  assumes "wf_table s"
  shows "uint (u_mapSize s) - 1 = int (unat (u_mapSize s) - 1)"
proof -
  from assms have "1 \<le> unat (u_mapSize s)" by (simp only: wf_table_def) linarith
  then have "int (unat (u_mapSize s) - 1) = int (unat (u_mapSize s)) - 1"
    by (simp only: of_nat_diff of_nat_1)
  then show ?thesis by (simp only: of_nat_unat)
qed

lemma multiMap_low:
  assumes wf: "wf_table s" and le: "val \<le> u_in s ! 0"
  shows "multiMap s val = Inr (u_out s ! 0)"
proof -
  have "0 < unat (u_mapSize s)" using wf by (simp add: wf_table_def)
  from wf_table_reads [OF wf this] le show ?thesis by (simp add: multiMap_def)
qed

lemma multiMap_high:
  assumes wf: "wf_table s" and ge: "u_in s ! (unat (u_mapSize s) - 1) \<le> val"
  shows "multiMap s val = Inr (u_out s ! (unat (u_mapSize s) - 1))"
proof -
  let ?n = "unat (u_mapSize s)"
  have n: "2 \<le> ?n" using wf by (simp add: wf_table_def)
  then have z: "0 < ?n" and l: "?n - 1 < ?n" by simp_all
  have "u_in s ! 0 < u_in s ! (?n - 1)" using n by (intro wf_table_strict [OF wf]) simp_all
  with ge have nle: "\<not> val \<le> u_in s ! 0" by simp
  from wf_table_reads [OF wf z] wf_table_reads [OF wf l] nle ge show ?thesis
    by (simp add: multiMap_def uint_mapSize_minus_one [OF wf])
qed

lemma multiMap_interior:
  assumes wf: "wf_table s"
    and lo: "u_in s ! 0 < val" and hi: "val < u_in s ! (unat (u_mapSize s) - 1)"
    and i: "i < unat (u_mapSize s)" and ge: "val \<le> u_in s ! i"
    and least: "\<forall>j<i. u_in s ! j < val"
  shows "scan s val 1 = Inr (word_of_nat i)"
    and "1 \<le> i"
    and "multiMap s val =
      (if val = u_in s ! i then Inr (u_out s ! i)
       else Inr (tdiv ((val - u_in s ! (i - 1)) * (u_out s ! i - u_out s ! (i - 1)))
                   (u_in s ! i - u_in s ! (i - 1)) + u_out s ! (i - 1)))"
proof -
  let ?n = "unat (u_mapSize s)"
  have n: "2 \<le> ?n" using wf by (simp add: wf_table_def)
  then have z: "0 < ?n" and l: "?n - 1 < ?n" by simp_all
  show i1: "1 \<le> i"
  proof (rule ccontr)
    assume "\<not> 1 \<le> i"
    then have "i = 0" by simp
    with lo ge show False by simp
  qed
  have len: "length (u_in s) = ?n" using wf by (simp add: wf_table_def)
  have "unat (1 :: 8 word) \<le> i" using i1 by simp
  moreover have "\<forall>j. unat (1 :: 8 word) \<le> j \<and> j < i \<longrightarrow> u_in s ! j < val"
    using least by simp
  ultimately show sc: "scan s val 1 = Inr (word_of_nat i)"
    using len i ge by (intro scan_finds) simp_all
  have "?n < 2 ^ LENGTH(8)" by (rule unsigned_less)
  with i have "i < 2 ^ LENGTH(8)" by simp
  then have ui: "uint (word_of_nat i :: 8 word) = int i"
    by (simp add: uint_nat unat_of_nat)
  define p :: "8 word" where "p = word_of_nat i"
  have scp: "scan s val 1 = Inr p" using sc by (simp only: p_def)
  have up: "uint p = int i" using ui by (simp only: p_def)
  have im: "i - 1 < ?n" using i by simp
  have "int (i - 1) = int i - 1" using i1 by (simp only: of_nat_diff of_nat_1)
  then have up1: "uint p - 1 = int (i - 1)" using up by simp
  have prev: "u_in s ! (i - 1) < val" using least i1 by simp
  with ge have nz: "u_in s ! i - u_in s ! (i - 1) \<noteq> 0" by simp
  have nlo: "\<not> val \<le> u_in s ! 0" using lo by simp
  have nhi: "\<not> u_in s ! (?n - 1) \<le> val" using hi by simp
  have r0: "tableRead s (u_in s) 0 = Inr (u_in s ! 0)"
    using wf_table_reads(1) [OF wf z] by simp
  have rl: "tableRead s (u_in s) (uint (u_mapSize s) - 1) = Inr (u_in s ! (?n - 1))"
    using wf_table_reads(1) [OF wf l] by (simp only: uint_mapSize_minus_one [OF wf])
  have ri: "tableRead s (u_in s) (uint p) = Inr (u_in s ! i)"
    using wf_table_reads(1) [OF wf i] by (simp only: up)
  have oi: "tableRead s (u_out s) (uint p) = Inr (u_out s ! i)"
    using wf_table_reads(2) [OF wf i] by (simp only: up)
  have rp: "tableRead s (u_in s) (uint p - 1) = Inr (u_in s ! (i - 1))"
    using wf_table_reads(1) [OF wf im] by (simp only: up1)
  have op: "tableRead s (u_out s) (uint p - 1) = Inr (u_out s ! (i - 1))"
    using wf_table_reads(2) [OF wf im] by (simp only: up1)
  show "multiMap s val =
      (if val = u_in s ! i then Inr (u_out s ! i)
       else Inr (tdiv ((val - u_in s ! (i - 1)) * (u_out s ! i - u_out s ! (i - 1)))
                   (u_in s ! i - u_in s ! (i - 1)) + u_out s ! (i - 1)))"
    unfolding multiMap_def
    by (simp only: r0 rl scp ri oi rp op nlo nhi nz sum.case if_False if_True split: if_split)
qed

subsection \<open>The range mapper: claims\<close>

lemma wf_table_demo: "wf_table demo_table"
  by (simp add: wf_table_def demo_table_def rar0_def)

lemma wf_table_first_index:
  assumes wf: "wf_table s"
    and lo: "u_in s ! 0 < val" and hi: "val < u_in s ! (unat (u_mapSize s) - 1)"
  shows "\<exists>i. i < unat (u_mapSize s) \<and> val \<le> u_in s ! i \<and> (\<forall>j<i. u_in s ! j < val)"
proof -
  let ?P = "\<lambda>k. val \<le> u_in s ! k"
  let ?n = "unat (u_mapSize s)"
  define i where "i = (LEAST k. ?P k)"
  have last: "?P (?n - 1)" using hi by simp
  then have "?P i" unfolding i_def by (rule LeastI)
  moreover have "i \<le> ?n - 1" unfolding i_def using last by (rule Least_le)
  moreover have "2 \<le> ?n" using wf by (simp add: wf_table_def)
  moreover have "\<forall>j<i. u_in s ! j < val"
  proof (intro allI impI)
    fix j assume "j < i"
    then have "\<not> ?P j" unfolding i_def by (rule not_less_Least)
    then show "u_in s ! j < val" by simp
  qed
  ultimately show ?thesis by (intro exI [of _ i]) simp
qed

lemma multiMap_exact:
  assumes wf: "wf_table s" and i: "i < unat (u_mapSize s)"
  shows "multiMap s (u_in s ! i) = Inr (u_out s ! i)"
proof -
  let ?n = "unat (u_mapSize s)"
  consider "i = 0" | "i = ?n - 1" | "0 < i" "i < ?n - 1" using i by linarith
  then show ?thesis
  proof cases
    case 1
    then show ?thesis using multiMap_low [OF wf, of "u_in s ! i"] by simp
  next
    case 2
    then show ?thesis using multiMap_high [OF wf, of "u_in s ! i"] by simp
  next
    case 3
    have lo: "u_in s ! 0 < u_in s ! i" using 3 i by (intro wf_table_strict [OF wf]) simp_all
    have hi: "u_in s ! i < u_in s ! (?n - 1)" using 3 i by (intro wf_table_strict [OF wf]) simp_all
    have least: "\<forall>j<i. u_in s ! j < u_in s ! i"
      using i by (auto intro: wf_table_strict [OF wf])
    from multiMap_interior(3) [OF wf lo hi i order_refl least] show ?thesis by simp
  qed
qed

text \<open>
  Claim C4. In table mode, for a value strictly between the first and the last input point
  that is not itself an input point, and \<open>i\<close> the smallest index whose input point is at
  least the value, when the \<^verbatim>\<open>int\<close> arithmetic of the interpolation does not overflow
  (\<open>interpolation_fits\<close>), the result is
  \<open>out[i-1] + (val - in[i-1]) * (out[i] - out[i-1]) / (in[i] - in[i-1])\<close> with the
  division truncated toward zero. For the table \<open>in = [0,100,200]\<close>,
  \<open>out = [0,128,255]\<close> the value 50 is mapped to 64.
\<close>

theorem multiMap_interpolates:
  assumes "wf_table s"
    and "u_in s ! 0 < val" and "val < u_in s ! (unat (u_mapSize s) - 1)"
    and "val \<notin> set (u_in s)"
    and "i < unat (u_mapSize s)" and "val \<le> u_in s ! i"
    and "\<forall>j<i. \<not> val \<le> u_in s ! j"
    and "interpolation_fits s val i"
  shows "multiMap s val =
    Inr (u_out s ! (i - 1)
         + tdiv ((val - u_in s ! (i - 1)) * (u_out s ! i - u_out s ! (i - 1)))
             (u_in s ! i - u_in s ! (i - 1)))"
proof -
  have "i < length (u_in s)" using assms(1,5) by (simp add: wf_table_def)
  then have "u_in s ! i \<in> set (u_in s)" by (rule nth_mem)
  with assms(4) have ne: "val \<noteq> u_in s ! i" by auto
  have least: "\<forall>j<i. u_in s ! j < val" using assms(7) by auto
  from multiMap_interior(3) [OF assms(1,2,3,5,6) least] ne show ?thesis
    by (simp add: add.commute)
qed

theorem multiMap_interpolates_witness:
  "wf_table demo_table \<and> interpolation_fits demo_table 50 1 \<and> multiMap demo_table 50 = Inr 64"
proof -
  have "multiMap demo_table 50 =
    Inr (u_out demo_table ! (1 - 1)
         + tdiv ((50 - u_in demo_table ! (1 - 1)) * (u_out demo_table ! 1 - u_out demo_table ! (1 - 1)))
             (u_in demo_table ! 1 - u_in demo_table ! (1 - 1)))"
    by (rule multiMap_interpolates [OF wf_table_demo])
      (simp_all add: demo_table_def rar0_def interpolation_fits_def fits_int_def tdiv_def)
  moreover have "interpolation_fits demo_table 50 1"
    by (simp add: demo_table_def rar0_def interpolation_fits_def fits_int_def tdiv_def)
  ultimately show ?thesis using wf_table_demo by (simp add: demo_table_def rar0_def tdiv_def)
qed

text \<open>On the table \<open>in = [0, 100000]\<close>, \<open>out = [0, 100000]\<close> the product for the value
  50000 is \<open>5 * 10^9\<close>, which is no \<^verbatim>\<open>int\<close>: the statement above does not speak about
  that call.\<close>

lemma interpolation_overflows:
  "\<not> interpolation_fits (rar0\<lparr>u_in := [0, 100000], u_out := [0, 100000], u_mapSize := 2\<rparr>) 50000 1"
  by (simp add: interpolation_fits_def fits_int_def rar0_def)

text \<open>
  Claim C5. For a table of at least two strictly increasing input points: a value at or
  below the first input point is mapped to the first output point, a value at or above the
  last input point to the last output point, and every input point exactly to its output
  point. For \<open>in = [0,100,200]\<close>, \<open>out = [0,128,255]\<close>: 0, 100 and 200 are mapped to
  0, 128 and 255, and -10 and 500 to the first and the last output point.
\<close>

theorem multiMap_clamps_and_hits:
  assumes "wf_table s"
  shows "(\<forall>val. val \<le> u_in s ! 0 \<longrightarrow> multiMap s val = Inr (u_out s ! 0)) \<and>
    (\<forall>val. u_in s ! (unat (u_mapSize s) - 1) \<le> val \<longrightarrow>
       multiMap s val = Inr (u_out s ! (unat (u_mapSize s) - 1))) \<and>
    (\<forall>i. i < unat (u_mapSize s) \<longrightarrow> multiMap s (u_in s ! i) = Inr (u_out s ! i))"
  using assms by (simp add: multiMap_low multiMap_high multiMap_exact)

theorem multiMap_clamps_and_hits_witness:
  "wf_table demo_table \<and> multiMap demo_table 0 = Inr 0 \<and> multiMap demo_table 100 = Inr 128 \<and>
   multiMap demo_table 200 = Inr 255 \<and> multiMap demo_table (- 10) = Inr 0 \<and>
   multiMap demo_table 500 = Inr 255"
proof -
  note c = multiMap_clamps_and_hits [OF wf_table_demo]
  have sel: "u_in demo_table = [0, 100, 200]" "u_out demo_table = [0, 128, 255]"
    "unat (u_mapSize demo_table) = 3"
    by (simp_all add: demo_table_def rar0_def)
  from c have h: "multiMap demo_table (u_in demo_table ! i) = Inr (u_out demo_table ! i)"
    if "i < 3" for i using that by (simp add: sel)
  from c have lo: "multiMap demo_table (- 10) = Inr 0" by (simp add: sel)
  from c have hi: "multiMap demo_table 500 = Inr 255" by (simp add: sel)
  from h [of 0] h [of 1] h [of 2] lo hi wf_table_demo show ?thesis by (simp add: sel)
qed

text \<open>
  Claim C9. For a table of at least two strictly increasing input points and every value,
  \<^verbatim>\<open>multiMap\<close> returns a result (the recursion of \<open>scan\<close> is well founded, and no read
  leaves the table: the result is never \<open>OutOfBounds\<close>, nor a division by zero). At or
  below the first input point and at or above the last one the result is the read of the
  first or last output point, without the loop. When the value lies strictly between the
  first and the last input point, the loop that starts at position 1 stops at a position
  between 1 and \<^verbatim>\<open>_mapSize - 1\<close>, whose input point is at least the value.
\<close>

theorem multiMap_in_bounds:
  assumes "wf_table s"
  shows "(\<exists>r. multiMap s val = Inr r) \<and>
    (val \<le> u_in s ! 0 \<longrightarrow> multiMap s val = tableRead s (u_out s) 0) \<and>
    (u_in s ! (unat (u_mapSize s) - 1) \<le> val \<longrightarrow>
      multiMap s val = tableRead s (u_out s) (uint (u_mapSize s) - 1)) \<and>
    (u_in s ! 0 < val \<and> val < u_in s ! (unat (u_mapSize s) - 1) \<longrightarrow>
      (\<exists>pos. scan s val 1 = Inr pos \<and> 1 \<le> unat pos \<and> unat pos \<le> unat (u_mapSize s) - 1 \<and>
         val \<le> u_in s ! unat pos \<and> u_in s ! (unat pos - 1) < val))"
proof -
  let ?n = "unat (u_mapSize s)"
  have n: "2 \<le> ?n" using assms by (simp add: wf_table_def)
  then have z: "0 < ?n" and l: "?n - 1 < ?n" by simp_all
  have first: "tableRead s (u_out s) 0 = Inr (u_out s ! 0)"
    using wf_table_reads(2) [OF assms z] by simp
  have last: "tableRead s (u_out s) (uint (u_mapSize s) - 1) = Inr (u_out s ! (?n - 1))"
    using wf_table_reads(2) [OF assms l] by (simp only: uint_mapSize_minus_one [OF assms])
  have strict: "u_in s ! 0 < u_in s ! (?n - 1)"
    using n by (intro wf_table_strict [OF assms]) simp_all
  consider "val \<le> u_in s ! 0" | "u_in s ! (?n - 1) \<le> val"
    | "u_in s ! 0 < val" "val < u_in s ! (?n - 1)" by linarith
  then show ?thesis
  proof cases
    case 1
    with strict have "\<not> u_in s ! (?n - 1) \<le> val" by simp
    with 1 show ?thesis using multiMap_low [OF assms, of val] by (simp add: first)
  next
    case 2
    with strict have "\<not> val \<le> u_in s ! 0" by simp
    with 2 show ?thesis using multiMap_high [OF assms, of val] by (simp add: last)
  next
    case 3
    from wf_table_first_index [OF assms 3] obtain i where
      i: "i < ?n" and ge: "val \<le> u_in s ! i" and least: "\<forall>j<i. u_in s ! j < val"
      by blast
    note m = multiMap_interior [OF assms 3 i ge least]
    have "?n < 2 ^ LENGTH(8)" by (rule unsigned_less)
    with i have "i < 2 ^ LENGTH(8)" by simp
    then have u: "unat (word_of_nat i :: 8 word) = i" by (simp add: unat_of_nat)
    have prev: "u_in s ! (i - 1) < val" using least m(2) by simp
    have "scan s val 1 = Inr (word_of_nat i) \<and> 1 \<le> unat (word_of_nat i :: 8 word) \<and>
        unat (word_of_nat i :: 8 word) \<le> ?n - 1 \<and> val \<le> u_in s ! unat (word_of_nat i :: 8 word) \<and>
        u_in s ! (unat (word_of_nat i :: 8 word) - 1) < val"
      using m(1,2) i ge prev by (simp only: u) simp
    then have "\<exists>pos. scan s val 1 = Inr pos \<and> 1 \<le> unat pos \<and> unat pos \<le> ?n - 1 \<and>
        val \<le> u_in s ! unat pos \<and> u_in s ! (unat pos - 1) < val" by (rule exI)
    moreover have "\<exists>r. multiMap s val = Inr r" using m(3) by (simp split: if_splits)
    ultimately show ?thesis using 3 by simp
  qed
qed

theorem multiMap_in_bounds_witness:
  "wf_table demo_table \<and> u_in demo_table ! 0 < 150 \<and>
   150 < u_in demo_table ! (unat (u_mapSize demo_table) - 1) \<and>
   (\<exists>r. multiMap demo_table 150 = Inr r) \<and>
   (\<exists>pos. scan demo_table 150 1 = Inr pos \<and> 1 \<le> unat pos \<and> unat pos \<le> 2) \<and>
   scan demo_table 150 1 = Inr 2 \<and> multiMap demo_table 150 = Inr 191"
proof -
  have sel: "u_in demo_table = [0, 100, 200]" "unat (u_mapSize demo_table) = 3"
    by (simp_all add: demo_table_def rar0_def)
  have inside: "u_in demo_table ! 0 < 150"
    "150 < u_in demo_table ! (unat (u_mapSize demo_table) - 1)"
    by (simp_all add: sel)
  from multiMap_in_bounds [OF wf_table_demo, of 150] inside
  have "(\<exists>r. multiMap demo_table 150 = Inr r) \<and>
    (\<exists>pos. scan demo_table 150 1 = Inr pos \<and> 1 \<le> unat pos \<and> unat pos \<le> 2)"
    by (simp add: sel) blast
  moreover have sc: "scan demo_table 150 1 = Inr 2"
    by (simp add: scan.simps [of demo_table 150] tableRead_def demo_table_def rar0_def)
  moreover have "multiMap demo_table 150 = Inr 191"
    by (simp add: multiMap_def sc) (simp add: tableRead_def demo_table_def rar0_def tdiv_def)
  ultimately show ?thesis using wf_table_demo inside by simp
qed

text \<open>
  Claim C3, as amended. \<^verbatim>\<open>setMap\<close> validates nothing and never fails: for every input,
  also with fewer than two points or with input points that are not strictly increasing, it
  installs the two arrays and the size, switches the mapper to the table mode and leaves
  every other member of the object, the configuration and the state of the filter, as it
  was. For a well-formed table (both arrays of the given size, at least
  two points, strictly increasing input points) the object then holds a well-formed table.
\<close>

theorem setMap_never_fails:
  "setMap s inp out sz \<noteq> Inl e \<and>
   setMap s inp out sz = Inr (s\<lparr>u_in := inp, u_out := out, u_mapSize := sz, u_map := True\<rparr>) \<and>
   (\<exists>t. setMap s inp out sz = Inr t \<and> u_in t = inp \<and> u_out t = out \<and> u_mapSize t = sz \<and>
      u_map t \<and>
      sleepEnable t = sleepEnable s \<and> edgeSnapEnable t = edgeSnapEnable s \<and>
      activityThreshold t = activityThreshold s \<and> analogResolution t = analogResolution s \<and>
      snapMultiplier t = snapMultiplier s \<and> smoothValue t = smoothValue s \<and>
      errorEMA t = errorEMA s \<and> sleeping t = sleeping s \<and> rawValue t = rawValue s \<and>
      responsiveValue t = responsiveValue s \<and> prevResponsiveValue t = prevResponsiveValue s \<and>
      responsiveValueHasChanged t = responsiveValueHasChanged s) \<and>
   (length inp = unat sz \<and> length out = unat sz \<and> 2 \<le> unat sz \<and> sorted_wrt (<) inp \<longrightarrow>
      (\<exists>t. setMap s inp out sz = Inr t \<and> wf_table t))"
  by (simp add: setMap_def wf_table_def)

theorem setMap_never_fails_witness:
  "setMap rar0 [0, 100, 200] [0, 128, 255] 3 = Inr demo_table \<and> wf_table demo_table"
proof -
  note c = setMap_never_fails [of rar0 "[0, 100, 200]" "[0, 128, 255]" 3 ConfigurationError]
  from c [THEN conjunct2, THEN conjunct1]
  have t: "setMap rar0 [0, 100, 200] [0, 128, 255] 3 = Inr demo_table"
    by (simp only: demo_table_def)
  have "length [0, 100, 200 :: int] = unat (3 :: 8 word) \<and>
      length [0, 128, 255 :: int] = unat (3 :: 8 word) \<and> 2 \<le> unat (3 :: 8 word) \<and>
      sorted_wrt (<) [0, 100, 200 :: int]"
    by simp
  with c [THEN conjunct2, THEN conjunct2, THEN conjunct2]
  have "\<exists>t'. setMap rar0 [0, 100, 200] [0, 128, 255] 3 = Inr t' \<and> wf_table t'"
    by (rule mp)
  then obtain t' where "Inr t' = setMap rar0 [0, 100, 200] [0, 128, 255] 3" and "wf_table t'"
    by auto
  with t have "wf_table demo_table" by simp
  with t show ?thesis by simp
qed

text \<open>A table of one point, a table whose input points repeat and an empty table are all
  accepted; the first read of an empty table is then outside of it.\<close>

lemma empty_table_read: "multiMap (rar0\<lparr>u_map := True\<rparr>) val = Inl OutOfBounds"
  by (simp add: multiMap_def tableRead_def rar0_def)

theorem setMap_accepts_malformed:
  "setMap rar0 [5] [1] 1 \<noteq> Inl ConfigurationError \<and>
   setMap rar0 [3, 3] [0, 9] 2 \<noteq> Inl ConfigurationError \<and>
   setMap rar0 [] [] 0 \<noteq> Inl ConfigurationError"
  by (simp add: setMap_def)

end
